theory Spec2Isabelle
  imports Main "HOL-Library.AList"
begin

section \<open>Strings\<close>

text \<open>
  Source strings are modelled as \<^typ>\<open>string\<close>, one \<^typ>\<open>char\<close> per code unit, which covers
  the code units 0 to 255 (Latin-1). On that range \<open>String.prototype.toLowerCase\<close> adds 32 to
  the letters A to Z and to the code units 192 to 222 other than 215, and leaves every other
  code unit alone; \<open>String.prototype.trim\<close> strips the code units 9 to 13, 32 and 160 from both
  ends.
\<close>

definition toLowerCase_char :: "char \<Rightarrow> char" where
  "toLowerCase_char c =
     (let n = (of_char c :: nat)
      in if (65 \<le> n \<and> n \<le> 90) \<or> (192 \<le> n \<and> n \<le> 222 \<and> n \<noteq> 215)
         then char_of (n + 32) else c)"

definition toLowerCase :: "string \<Rightarrow> string" where
  "toLowerCase s = map toLowerCase_char s"

definition isWhiteSpace :: "char \<Rightarrow> bool" where
  "isWhiteSpace c = (let n = (of_char c :: nat) in (9 \<le> n \<and> n \<le> 13) \<or> n = 32 \<or> n = 160)"

definition trim :: "string \<Rightarrow> string" where
  "trim s = rev (dropWhile isWhiteSpace (rev (dropWhile isWhiteSpace s)))"

text \<open>\<open>s.includes(sub)\<close>: does \<open>sub\<close> start at some position of \<open>s\<close>.\<close>

fun startsWith :: "string \<Rightarrow> string \<Rightarrow> bool" where
  "startsWith s [] = True"
| "startsWith [] (y # ys) = False"
| "startsWith (x # xs) (y # ys) = (x = y \<and> startsWith xs ys)"

fun includes_str :: "string \<Rightarrow> string \<Rightarrow> bool" where
  "includes_str [] sub = startsWith [] sub"
| "includes_str (x # xs) sub = (startsWith (x # xs) sub \<or> includes_str xs sub)"

section \<open>The set of blocked patterns\<close>

text \<open>
  A \<open>Set<string>\<close> keeps its elements in insertion order and without duplicates;
  \<open>Array.from\<close> and \<open>for ... of\<close> see that order. It is modelled as a list.
\<close>

definition set_has :: "string list \<Rightarrow> string \<Rightarrow> bool" where
  "set_has xs x = (x \<in> set xs)"

definition set_add :: "string \<Rightarrow> string list \<Rightarrow> string list" where
  "set_add x xs = (if x \<in> set xs then xs else xs @ [x])"

definition set_delete :: "string \<Rightarrow> string list \<Rightarrow> string list" where
  "set_delete x xs = removeAll x xs"

definition new_Set :: "string list \<Rightarrow> string list" where
  "new_Set xs = fold set_add xs []"

definition DEFAULT_BLOCKED_COMMANDS :: "string list" where
  "DEFAULT_BLOCKED_COMMANDS =
     [''format'', ''del /q'', ''rm -rf'', ''sudo'', ''chmod 777'', ''mkfs'']"

section \<open>The configuration file\<close>

text \<open>
  What \<open>loadConfig\<close> can find at \<open>configPath\<close>: no file; a file whose reading or parsing
  throws; a parsed value without an array under \<open>blockedCommands\<close>; or such an array.
  \<open>writable\<close> says whether \<open>fs.writeFileSync\<close> succeeds; when it throws, \<open>saveConfig\<close>
  catches the error and the file stays as it was. Log output is not modelled.
\<close>

datatype config_file = Missing | Unreadable | NoArray | BlockedArray "string list"

record disk =
  contents :: config_file
  writable :: bool

record CommandManager =
  blockedCommands :: "string list"
  config :: disk

definition saveConfig :: "CommandManager \<Rightarrow> CommandManager" where
  "saveConfig m =
     (if writable (config m)
      then m\<lparr>config := (config m)\<lparr>contents := BlockedArray (blockedCommands m)\<rparr>\<rparr>
      else m)"

definition loadConfig :: "CommandManager \<Rightarrow> CommandManager" where
  "loadConfig m =
     (case contents (config m) of
        Missing \<Rightarrow> saveConfig m
      | Unreadable \<Rightarrow> m
      | NoArray \<Rightarrow> m
      | BlockedArray cmds \<Rightarrow> m\<lparr>blockedCommands := fold set_add cmds (blockedCommands m)\<rparr>)"

definition new_CommandManager :: "disk \<Rightarrow> CommandManager" where
  "new_CommandManager d =
     loadConfig \<lparr>blockedCommands = new_Set DEFAULT_BLOCKED_COMMANDS, config = d\<rparr>"

fun isCommandBlocked_loop :: "string \<Rightarrow> string list \<Rightarrow> bool" where
  "isCommandBlocked_loop lowerCommand [] = False"
| "isCommandBlocked_loop lowerCommand (blockedCmd # rest) =
     (if includes_str lowerCommand (toLowerCase blockedCmd) then True
      else isCommandBlocked_loop lowerCommand rest)"

definition isCommandBlocked :: "CommandManager \<Rightarrow> string \<Rightarrow> bool" where
  "isCommandBlocked m command = isCommandBlocked_loop (toLowerCase command) (blockedCommands m)"

definition blockCommand :: "string \<Rightarrow> CommandManager \<Rightarrow> string \<times> CommandManager" where
  "blockCommand command m =
     (if command = [] \<or> trim command = [] then (''Error: Cannot block empty command'', m)
      else let trimmedCommand = trim command
           in (''Successfully blocked command: '' @ trimmedCommand,
               saveConfig (m\<lparr>blockedCommands := set_add trimmedCommand (blockedCommands m)\<rparr>)))"

definition unblockCommand :: "string \<Rightarrow> CommandManager \<Rightarrow> string \<times> CommandManager" where
  "unblockCommand command m =
     (if command = [] \<or> trim command = [] then (''Error: Cannot unblock empty command'', m)
      else let trimmedCommand = trim command
           in if set_has (blockedCommands m) trimmedCommand
              then (''Successfully unblocked command: '' @ trimmedCommand,
                    saveConfig (m\<lparr>blockedCommands := set_delete trimmedCommand (blockedCommands m)\<rparr>))
              else (''Command not found in blocklist: '' @ trimmedCommand, m))"

section \<open>Sessions\<close>

text \<open>
  \<open>TerminalSession\<close> and \<open>CompletedSession\<close>, with the fields of the objects that
  \<open>terminal-manager.ts\<close> builds; the fields of the second carry the prefix \<open>c_\<close> where the
  first has a field of the same name.
  A \<open>ChildProcess\<close> is a handle number, a \<open>Date\<close> a number of milliseconds, and an exit
  code is \<open>None\<close> where the source has \<open>null\<close>.
\<close>

record TerminalSession =
  pid :: int
  process :: nat
  lastOutput :: string
  isBlocked :: bool
  startTime :: nat

record CompletedSession =
  c_pid :: int
  c_output :: string
  exitCode :: "int option"
  c_startTime :: nat
  endTime :: nat

datatype CommandExecutionResult =
  Result (r_pid: int) (r_output: string) (r_isBlocked: bool)

datatype ActiveSession =
  Active (a_pid: int) (a_isBlocked: bool) (a_runtime: int)

text \<open>
  The promise returned by \<open>executeCommand\<close>: the first \<open>resolve\<close> or \<open>reject\<close> settles it,
  later calls change nothing.
\<close>

datatype promise = Pending | Resolved CommandExecutionResult | Rejected string

fun resolve :: "CommandExecutionResult \<Rightarrow> promise \<Rightarrow> promise" where
  "resolve r Pending = Resolved r"
| "resolve r p = p"

fun reject :: "string \<Rightarrow> promise \<Rightarrow> promise" where
  "reject e Pending = Rejected e"
| "reject e p = p"

text \<open>
  Each call of \<open>executeCommand\<close> that gets past \<open>spawn\<close> leaves a closure behind: the local
  variable \<open>output\<close> (the field \<open>output'\<close>) that the two \<open>data\<close> handlers append to, the
  promise that the timer and the \<open>error\<close> handler settle, and the timer set by \<open>setTimeout\<close>,
  recorded as the time it is due. The closures are kept under the \<open>pid\<close> of their call.
  The session's \<open>lastOutput: output\<close> copies the string that \<open>output\<close> holds when the session
  is built; strings are values, so later appends to \<open>output\<close> do not reach it.
\<close>

record closure =
  output' :: string
  promise :: promise
  due :: nat

text \<open>
  The two \<open>Map\<close>s are association lists in insertion order: \<open>Map.set\<close> is
  \<^const>\<open>AList.update\<close>, \<open>Map.delete\<close> is \<^const>\<open>AList.delete\<close>, \<open>Map.get\<close> is \<^const>\<open>map_of\<close>.
  The counter \<open>nextPid\<close> is an integer: the source's numbers are exact on the integers
  below \<open>2^53\<close>, which a counter that starts at 1 and goes up by one per call does not
  leave in a run of any practical length.
\<close>

record TerminalManager =
  sessions :: "(int \<times> TerminalSession) list"
  completedSessions :: "(int \<times> CompletedSession) list"
  nextPid :: int

text \<open>
  The manager together with what it runs in: the \<open>commandManager\<close> singleton, the closures of
  the calls made so far, the clock, and the processes a termination signal was sent to.
\<close>

record system = TerminalManager +
  commandManager :: CommandManager
  calls :: "(int \<times> closure) list"
  now :: nat
  signalled :: "nat list"

definition new_TerminalManager :: "CommandManager \<Rightarrow> nat \<Rightarrow> system" where
  "new_TerminalManager m t =
     \<lparr>sessions = [], completedSessions = [], nextPid = 1,
      commandManager = m, calls = [], now = t, signalled = []\<rparr>"

text \<open>What the environment answers to \<open>spawn\<close> and to the request to terminate a process.\<close>

datatype spawn_outcome = Spawned nat | SpawnThrows string

datatype signal_outcome = SignalSent | SignalThrows

text \<open>
  \<open>setTimeout(callback, timeout)\<close> is the runtime's, not the program's: a delay that is
  not between 1 and \<open>TIMEOUT_MAX\<close> = \<open>2^31 - 1\<close> milliseconds is set to 1 millisecond.
  \<open>executeCommand\<close> passes its \<open>timeout\<close> on as it is, so this is the delay of its timer.
  Timeouts are whole numbers of milliseconds, of either sign; a delay with a fraction,
  which the runtime cuts to a whole number, and the delays \<open>NaN\<close> and \<open>Infinity\<close>, which it
  also sets to 1, are left out.
\<close>

definition TIMEOUT_MAX :: int where
  "TIMEOUT_MAX = 2147483647"

definition setTimeout_delay :: "int \<Rightarrow> nat" where
  "setTimeout_delay timeout = (if 1 \<le> timeout \<and> timeout \<le> TIMEOUT_MAX then nat timeout else 1)"

definition executeCommand ::
  "string \<Rightarrow> int \<Rightarrow> spawn_outcome \<Rightarrow> system \<Rightarrow> promise \<times> system" where
  "executeCommand command timeout sp s =
     (if isCommandBlocked (commandManager s) command
      then (Resolved (Result (- 1) (''Command blocked for security reasons: '' @ command) True), s)
      else
        let pid' = nextPid s;
            s1 = s\<lparr>nextPid := nextPid s + 1\<rparr>
        in case sp of
             SpawnThrows err \<Rightarrow> (Rejected err, s1)
           | Spawned childProcess \<Rightarrow>
               let c = \<lparr>output' = [], promise = Pending,
                        due = now s1 + setTimeout_delay timeout\<rparr>;
                   session = \<lparr>pid = pid', process = childProcess, lastOutput = output' c,
                              isBlocked = False, startTime = now s1\<rparr>
               in (Pending,
                   s1\<lparr>sessions := AList.update pid' session (sessions s1),
                      calls := AList.update pid' c (calls s1)\<rparr>))"

text \<open>The handlers of \<open>stdout\<close> and \<open>stderr\<close> data: \<open>output += data.toString()\<close>.\<close>

definition on_data :: "int \<Rightarrow> string \<Rightarrow> system \<Rightarrow> system" where
  "on_data p data s =
     s\<lparr>calls := AList.map_entry p (\<lambda>c. c\<lparr>output' := output' c @ data\<rparr>) (calls s)\<rparr>"

text \<open>The timer callback: \<open>resolve({pid, output, isBlocked: false})\<close>.\<close>

definition on_timeout :: "int \<Rightarrow> system \<Rightarrow> system" where
  "on_timeout p s =
     s\<lparr>calls := AList.map_entry p
        (\<lambda>c. c\<lparr>promise := resolve (Result p (output' c) False) (promise c)\<rparr>) (calls s)\<rparr>"

text \<open>The \<open>exit\<close> handler of the child process of call \<open>p\<close>.\<close>

definition on_exit :: "int \<Rightarrow> int option \<Rightarrow> system \<Rightarrow> system" where
  "on_exit p code s =
     (case map_of (calls s) p of
        None \<Rightarrow> s
      | Some c \<Rightarrow>
          (case map_of (sessions s) p of
             None \<Rightarrow> s
           | Some session \<Rightarrow>
               s\<lparr>sessions := AList.delete p (sessions s),
                 completedSessions := AList.update p
                   \<lparr>c_pid = p, c_output = lastOutput session @ output' c, exitCode = code,
                    c_startTime = startTime session, endTime = now s\<rparr> (completedSessions s)\<rparr>))"

text \<open>The \<open>error\<close> handler of the child process of call \<open>p\<close>.\<close>

definition on_error :: "int \<Rightarrow> string \<Rightarrow> system \<Rightarrow> system" where
  "on_error p msg s =
     s\<lparr>calls := AList.map_entry p
        (\<lambda>c. c\<lparr>promise := reject (''Command execution error: '' @ msg) (promise c)\<rparr>) (calls s)\<rparr>"

text \<open>
  \<open>${pid}\<close> in the text for an unknown identifier: the decimal digits of the number, which
  is what the source prints for an integer of magnitude below \<open>10^21\<close>. From there on the
  source prints the exponent form, which is not modelled.
\<close>

function string_of_nat :: "nat \<Rightarrow> string" where
  "string_of_nat n =
     (if n < 10 then [char_of (48 + n)] else string_of_nat (n div 10) @ [char_of (48 + n mod 10)])"
  by pat_completeness auto
termination
  by (relation "measure (\<lambda>n. n)") auto

definition string_of_int :: "int \<Rightarrow> string" where
  "string_of_int i = (if i < 0 then CHR ''-'' # string_of_nat (nat (- i)) else string_of_nat (nat i))"

definition readOutput :: "int \<Rightarrow> system \<Rightarrow> string" where
  "readOutput p s =
     (case map_of (sessions s) p of
        None \<Rightarrow>
          (case map_of (completedSessions s) p of
             Some completed \<Rightarrow> c_output completed
           | None \<Rightarrow> ''No session found with PID '' @ string_of_int p)
      | Some session \<Rightarrow> lastOutput session)"

text \<open>
  \<open>forceTerminate\<close>: \<open>taskkill\<close> on Windows and \<open>kill('SIGTERM')\<close> elsewhere are one request
  to the environment; when it throws, the \<open>catch\<close> returns \<open>false\<close>.
\<close>

definition forceTerminate :: "int \<Rightarrow> signal_outcome \<Rightarrow> system \<Rightarrow> bool \<times> system" where
  "forceTerminate p sig s =
     (case map_of (sessions s) p of
        None \<Rightarrow> (False, s)
      | Some session \<Rightarrow>
          (case sig of
             SignalThrows \<Rightarrow> (False, s)
           | SignalSent \<Rightarrow>
               (True,
                s\<lparr>signalled := signalled s @ [process session],
                  completedSessions := AList.update p
                    \<lparr>c_pid = p, c_output = lastOutput session, exitCode = None,
                     c_startTime = startTime session, endTime = now s\<rparr> (completedSessions s),
                  sessions := AList.delete p (sessions s)\<rparr>)))"

definition listSessions :: "system \<Rightarrow> ActiveSession list" where
  "listSessions s =
     map (\<lambda>(p, session).
            Active p (isBlocked session) ((int (now s) - int (startTime session)) div 1000))
         (sessions s)"

section \<open>Runs\<close>

text \<open>
  The manager is driven by calls from the protocol layer and by events of the runtime, one
  at a time. \<open>Tick\<close> lets time pass.
\<close>

datatype event =
    Execute string int spawn_outcome
  | StdoutData int string
  | StderrData int string
  | Timeout int
  | Exit int "int option"
  | Error int string
  | ReadOutput int
  | ForceTerminate int signal_outcome
  | ListSessions
  | BlockCommand string
  | UnblockCommand string
  | Tick nat

fun handle :: "event \<Rightarrow> system \<Rightarrow> system" where
  "handle (Execute command timeout sp) s = snd (executeCommand command timeout sp s)"
| "handle (StdoutData p data) s = on_data p data s"
| "handle (StderrData p data) s = on_data p data s"
| "handle (Timeout p) s = on_timeout p s"
| "handle (Exit p code) s = on_exit p code s"
| "handle (Error p msg) s = on_error p msg s"
| "handle (ReadOutput p) s = s"
| "handle (ForceTerminate p sig) s = snd (forceTerminate p sig s)"
| "handle ListSessions s = s"
| "handle (BlockCommand command) s = s\<lparr>commandManager := snd (blockCommand command (commandManager s))\<rparr>"
| "handle (UnblockCommand command) s = s\<lparr>commandManager := snd (unblockCommand command (commandManager s))\<rparr>"
| "handle (Tick n) s = s\<lparr>now := now s + n\<rparr>"

definition run :: "event list \<Rightarrow> system \<Rightarrow> system" where
  "run evs s = fold handle evs s"

text \<open>
  The runtime's part of the timer: the callback of call \<open>p\<close> is delivered only once its
  timer is due, that is once the delay that \<open>setTimeout\<close> gave the timer has passed. Every
  other event may come at any time, also more than once.
\<close>

fun deliverable :: "system \<Rightarrow> event \<Rightarrow> bool" where
  "deliverable s (Timeout p) = (case map_of (calls s) p of None \<Rightarrow> False | Some c \<Rightarrow> due c \<le> now s)"
| "deliverable s e = True"

fun schedule :: "system \<Rightarrow> event list \<Rightarrow> bool" where
  "schedule s [] = True"
| "schedule s (e # es) = (deliverable s e \<and> schedule (handle e s) es)"


section \<open>Notions used in the statements\<close>

text \<open>The patterns that the configuration file lists, when it can be read.\<close>

definition configured :: "disk \<Rightarrow> string set" where
  "configured d = (case contents d of BlockedArray cmds \<Rightarrow> set cmds | _ \<Rightarrow> {})"

text \<open>
  What holds of the manager in every state a run can reach: identifiers in use lie below
  the counter, no identifier is both active and completed, every active session still has
  the empty \<open>lastOutput\<close> it was built with, and a resolved promise carries the identifier
  of its call.
\<close>

definition wf :: "system \<Rightarrow> bool" where
  "wf s \<longleftrightarrow>
     1 \<le> nextPid s \<and>
     (\<forall>p x. map_of (sessions s) p = Some x \<longrightarrow> p < nextPid s) \<and>
     (\<forall>p x. map_of (sessions s) p = Some x \<longrightarrow> lastOutput x = []) \<and>
     (\<forall>p x. map_of (completedSessions s) p = Some x \<longrightarrow> p < nextPid s) \<and>
     (\<forall>p x. map_of (calls s) p = Some x \<longrightarrow> p < nextPid s) \<and>
     (\<forall>p. map_of (sessions s) p = None \<or> map_of (completedSessions s) p = None) \<and>
     (\<forall>p c r. map_of (calls s) p = Some c \<longrightarrow> promise c = Resolved r \<longrightarrow> r_pid r = p)"

text \<open>
  Concrete states for the examples: a manager started without a configuration file, a
  system at time 0, the same after \<open>echo hello; sleep 5\<close> has been started and has
  written \<open>hello\<close>, and that one after \<open>forceTerminate(1)\<close>.
\<close>

definition demo_manager :: CommandManager where
  "demo_manager = new_CommandManager \<lparr>contents = Missing, writable = True\<rparr>"

definition demo_system :: system where
  "demo_system = new_TerminalManager demo_manager 0"

definition hello_system :: system where
  "hello_system =
     run [Execute ''echo hello; sleep 5'' 100 (Spawned 7), StdoutData 1 ''hello''] demo_system"

definition killed_system :: system where
  "killed_system = run [ForceTerminate 1 SignalSent] hello_system"

section \<open>The command gate\<close>

lemma startsWith_iff: "startsWith s sub \<longleftrightarrow> (\<exists>ss. s = sub @ ss)"
  by (induction s sub rule: startsWith.induct) auto

lemma includes_str_iff: "includes_str s sub \<longleftrightarrow> (\<exists>ps ss. s = ps @ sub @ ss)"
proof (induction s)
  case Nil
  show ?case by (auto simp: startsWith_iff)
next
  case (Cons x xs)
  have "(\<exists>ps ss. x # xs = ps @ sub @ ss) \<longleftrightarrow> (\<exists>ss. x # xs = sub @ ss) \<or> (\<exists>ps ss. xs = ps @ sub @ ss)"
    (is "?L \<longleftrightarrow> ?A \<or> ?B")
  proof
    assume ?L
    then obtain ps ss where eq: "x # xs = ps @ sub @ ss" by blast
    show "?A \<or> ?B"
    proof (cases ps)
      case Nil
      with eq show ?thesis by auto
    next
      case (Cons p ps')
      with eq have "xs = ps' @ sub @ ss" by simp
      then show ?thesis by blast
    qed
  next
    assume "?A \<or> ?B"
    then show ?L
    proof
      assume ?A
      then obtain ss where "x # xs = [] @ sub @ ss" by auto
      then show ?L by blast
    next
      assume ?B
      then obtain ps ss where "xs = ps @ sub @ ss" by blast
      then have "x # xs = (x # ps) @ sub @ ss" by simp
      then show ?L by blast
    qed
  qed
  with Cons show ?case by (simp add: startsWith_iff)
qed

lemma isCommandBlocked_loop_iff:
  "isCommandBlocked_loop lc bs \<longleftrightarrow> (\<exists>b\<in>set bs. includes_str lc (toLowerCase b))"
  by (induction bs) auto

lemma isCommandBlocked_iff:
  "isCommandBlocked m c \<longleftrightarrow>
     (\<exists>b\<in>set (blockedCommands m). \<exists>ps ss. toLowerCase c = ps @ toLowerCase b @ ss)"
  by (simp add: isCommandBlocked_def isCommandBlocked_loop_iff includes_str_iff)

lemma set_set_add: "set (set_add x xs) = insert x (set xs)"
  by (auto simp: set_add_def)

lemma distinct_set_add: "distinct xs \<Longrightarrow> distinct (set_add x xs)"
  by (auto simp: set_add_def)

lemma set_fold_set_add: "set (fold set_add ys xs) = set xs \<union> set ys"
  by (induction ys arbitrary: xs) (auto simp: set_set_add)

lemma distinct_fold_set_add: "distinct xs \<Longrightarrow> distinct (fold set_add ys xs)"
  by (induction ys arbitrary: xs) (auto simp: distinct_set_add)

lemma new_Set_defaults: "new_Set DEFAULT_BLOCKED_COMMANDS = DEFAULT_BLOCKED_COMMANDS"
  by (simp add: new_Set_def DEFAULT_BLOCKED_COMMANDS_def set_add_def)

lemma blockedCommands_saveConfig: "blockedCommands (saveConfig m) = blockedCommands m"
  by (simp add: saveConfig_def)

lemma set_new_CommandManager:
  "set (blockedCommands (new_CommandManager d)) = set DEFAULT_BLOCKED_COMMANDS \<union> configured d"
  by (simp add: new_CommandManager_def loadConfig_def configured_def new_Set_defaults
      blockedCommands_saveConfig set_fold_set_add split: config_file.splits)

text \<open>The set of blocked patterns never holds a pattern twice.\<close>

lemma distinct_defaults: "distinct DEFAULT_BLOCKED_COMMANDS"
  by (simp add: DEFAULT_BLOCKED_COMMANDS_def)

lemma distinct_new_CommandManager: "distinct (blockedCommands (new_CommandManager d))"
  by (simp add: new_CommandManager_def loadConfig_def new_Set_defaults blockedCommands_saveConfig
      distinct_fold_set_add distinct_defaults split: config_file.splits)

lemma trim_Nil: "trim [] = []"
  by (simp add: trim_def)

lemma demo_manager_patterns: "blockedCommands demo_manager = DEFAULT_BLOCKED_COMMANDS"
  by code_simp

subsection \<open>Blocking a pattern\<close>

text \<open>
  Claim C7, as the code has it. \<open>blockCommand\<close> on an empty or whitespace-only pattern
  returns the error text and changes neither the set nor the file. On any other pattern
  it inserts the pattern with the whitespace at both ends removed: the set gains exactly
  that trimmed pattern, is unchanged when the trimmed pattern is already in it, a second
  call with the same argument changes nothing more, and when the configuration file can be
  written it holds the whole set afterwards.
\<close>

theorem block_inserts_trimmed_pattern:
  "(trim command = [] \<longrightarrow> blockCommand command m = (''Error: Cannot block empty command'', m)) \<and>
   (trim command \<noteq> [] \<longrightarrow>
      fst (blockCommand command m) = ''Successfully blocked command: '' @ trim command \<and>
      set (blockedCommands (snd (blockCommand command m))) =
        insert (trim command) (set (blockedCommands m)) \<and>
      (trim command \<in> set (blockedCommands m) \<longrightarrow>
         blockedCommands (snd (blockCommand command m)) = blockedCommands m) \<and>
      blockedCommands (snd (blockCommand command (snd (blockCommand command m)))) =
        blockedCommands (snd (blockCommand command m)) \<and>
      (writable (config m) \<longrightarrow>
         contents (config (snd (blockCommand command m))) =
           BlockedArray (blockedCommands (snd (blockCommand command m)))))"
  by (auto simp: blockCommand_def Let_def blockedCommands_saveConfig set_set_add saveConfig_def
      set_add_def trim_Nil)

theorem block_inserts_trimmed_pattern_witness:
  "blockCommand ''  '' demo_manager = (''Error: Cannot block empty command'', demo_manager) \<and>
   fst (blockCommand '' ls '' demo_manager) = ''Successfully blocked command: ls'' \<and>
   set (blockedCommands (snd (blockCommand '' ls '' demo_manager))) =
     insert ''ls'' (set (blockedCommands demo_manager)) \<and>
   blockedCommands (snd (blockCommand '' sudo'' demo_manager)) = blockedCommands demo_manager \<and>
   contents (config (snd (blockCommand '' ls '' demo_manager))) =
     BlockedArray (blockedCommands (snd (blockCommand '' ls '' demo_manager)))"
proof -
  have blank: "trim ''  '' = []" by code_simp
  have ls: "trim '' ls '' = ''ls''" by code_simp
  have sudo: "trim '' sudo'' = ''sudo''" by code_simp
  have present: "''sudo'' \<in> set (blockedCommands demo_manager)"
    by (simp add: demo_manager_patterns DEFAULT_BLOCKED_COMMANDS_def)
  have w: "writable (config demo_manager)" by code_simp
  show ?thesis
    using block_inserts_trimmed_pattern [of "''  ''" demo_manager]
      block_inserts_trimmed_pattern [of "'' ls ''" demo_manager]
      block_inserts_trimmed_pattern [of "'' sudo''" demo_manager]
      blank ls sudo present w
    by simp
qed

text \<open>
  Claim C7 as it is written fails for a pattern with a blank in front. The pattern that
  ends up in the set is not the one given but its trimmed form. And the set does change
  when the pattern is already present: it can be (the configuration file is not trimmed
  when it is loaded), and blocking it again adds its trimmed form, so the set grows from
  7 to 8 patterns.
\<close>

theorem block_untrimmed_counterexample:
  "'' ls'' \<notin> set (blockedCommands (snd (blockCommand '' ls'' demo_manager))) \<and>
   '' ls'' \<in> set (blockedCommands
      (new_CommandManager \<lparr>contents = BlockedArray ['' ls''], writable = True\<rparr>)) \<and>
   length (blockedCommands
      (new_CommandManager \<lparr>contents = BlockedArray ['' ls''], writable = True\<rparr>)) = 7 \<and>
   length (blockedCommands (snd (blockCommand '' ls''
      (new_CommandManager \<lparr>contents = BlockedArray ['' ls''], writable = True\<rparr>)))) = 8"
  by code_simp

subsection \<open>Unblocking a pattern\<close>

text \<open>
  Claim C8, as the code has it. \<open>unblockCommand\<close> on an empty or whitespace-only pattern
  returns the error text and changes nothing. Otherwise it looks for the pattern with the
  whitespace at both ends removed: when that trimmed pattern is not in the set it returns
  the not-found text and changes nothing; when it is, it removes exactly that pattern and,
  when the configuration file can be written, the file holds the remaining set.
\<close>

theorem unblock_removes_trimmed_pattern:
  "(trim command = [] \<longrightarrow> unblockCommand command m = (''Error: Cannot unblock empty command'', m)) \<and>
   (trim command \<noteq> [] \<and> trim command \<notin> set (blockedCommands m) \<longrightarrow>
      unblockCommand command m = (''Command not found in blocklist: '' @ trim command, m)) \<and>
   (trim command \<noteq> [] \<and> trim command \<in> set (blockedCommands m) \<longrightarrow>
      fst (unblockCommand command m) = ''Successfully unblocked command: '' @ trim command \<and>
      set (blockedCommands (snd (unblockCommand command m))) =
        set (blockedCommands m) - {trim command} \<and>
      (writable (config m) \<longrightarrow>
         contents (config (snd (unblockCommand command m))) =
           BlockedArray (blockedCommands (snd (unblockCommand command m)))))"
  by (auto simp: unblockCommand_def Let_def set_has_def set_delete_def saveConfig_def trim_Nil)

theorem unblock_removes_trimmed_pattern_witness:
  "unblockCommand [] demo_manager = (''Error: Cannot unblock empty command'', demo_manager) \<and>
   unblockCommand ''ls'' demo_manager = (''Command not found in blocklist: ls'', demo_manager) \<and>
   fst (unblockCommand ''sudo'' demo_manager) = ''Successfully unblocked command: sudo'' \<and>
   set (blockedCommands (snd (unblockCommand ''sudo'' demo_manager))) =
     set (blockedCommands demo_manager) - {''sudo''} \<and>
   contents (config (snd (unblockCommand ''sudo'' demo_manager))) =
     BlockedArray (blockedCommands (snd (unblockCommand ''sudo'' demo_manager)))"
proof -
  have ls: "trim ''ls'' = ''ls''" by code_simp
  have sudo: "trim ''sudo'' = ''sudo''" by code_simp
  have absent: "''ls'' \<notin> set (blockedCommands demo_manager)"
    by (simp add: demo_manager_patterns DEFAULT_BLOCKED_COMMANDS_def)
  have present: "''sudo'' \<in> set (blockedCommands demo_manager)"
    by (simp add: demo_manager_patterns DEFAULT_BLOCKED_COMMANDS_def)
  have w: "writable (config demo_manager)" by code_simp
  show ?thesis
    using unblock_removes_trimmed_pattern [of "[]" demo_manager]
      unblock_removes_trimmed_pattern [of "''ls''" demo_manager]
      unblock_removes_trimmed_pattern [of "''sudo''" demo_manager]
      ls sudo absent present w
    by (simp add: trim_Nil)
qed

text \<open>
  Claim C8 as it is written fails for a pattern that is absent from the set while its
  trimmed form is present: the answer is not the not-found text, and the set changes.
\<close>

theorem unblock_spaced_pattern_counterexample:
  "'' sudo '' \<notin> set (blockedCommands demo_manager) \<and>
   fst (unblockCommand '' sudo '' demo_manager) = ''Successfully unblocked command: sudo'' \<and>
   blockedCommands (snd (unblockCommand '' sudo '' demo_manager)) =
     [''format'', ''del /q'', ''rm -rf'', ''chmod 777'', ''mkfs'']"
  by code_simp

subsection \<open>The set at startup\<close>

text \<open>
  Claim C9. The set a new \<open>CommandManager\<close> starts with is the union of the default
  patterns and the patterns the configuration file lists; the file adds to the defaults
  and never replaces them. So every default pattern is in the set again after a restart
  from whatever file an \<open>unblockCommand\<close> left behind, and every command that contains a
  default pattern, case ignored, is blocked after startup.
\<close>

theorem startup_blocked_set:
  "set (blockedCommands (new_CommandManager d)) = set DEFAULT_BLOCKED_COMMANDS \<union> configured d \<and>
   (\<forall>p\<in>set DEFAULT_BLOCKED_COMMANDS.
      p \<in> set (blockedCommands (new_CommandManager (config (snd (unblockCommand command m))))) \<and>
      (toLowerCase c = ps @ toLowerCase p @ ss \<longrightarrow> isCommandBlocked (new_CommandManager d) c))"
proof (intro conjI ballI impI)
  show "set (blockedCommands (new_CommandManager d)) = set DEFAULT_BLOCKED_COMMANDS \<union> configured d"
    by (rule set_new_CommandManager)
next
  fix p assume "p \<in> set DEFAULT_BLOCKED_COMMANDS"
  then show "p \<in> set (blockedCommands (new_CommandManager (config (snd (unblockCommand command m)))))"
    by (simp add: set_new_CommandManager)
next
  fix p assume "p \<in> set DEFAULT_BLOCKED_COMMANDS" and sub: "toLowerCase c = ps @ toLowerCase p @ ss"
  then have "p \<in> set (blockedCommands (new_CommandManager d))"
    by (simp add: set_new_CommandManager)
  with sub show "isCommandBlocked (new_CommandManager d) c"
    unfolding isCommandBlocked_iff by blast
qed

theorem startup_blocked_set_witness:
  "''sudo'' \<notin> set (blockedCommands (snd (unblockCommand ''sudo'' demo_manager))) \<and>
   contents (config (snd (unblockCommand ''sudo'' demo_manager))) =
     BlockedArray [''format'', ''del /q'', ''rm -rf'', ''chmod 777'', ''mkfs''] \<and>
   ''sudo'' \<in> set (blockedCommands
      (new_CommandManager (config (snd (unblockCommand ''sudo'' demo_manager))))) \<and>
   isCommandBlocked (new_CommandManager \<lparr>contents = BlockedArray [''shutdown''], writable = False\<rparr>)
     ''SUDO reboot''"
proof -
  have default: "''sudo'' \<in> set DEFAULT_BLOCKED_COMMANDS"
    by (simp add: DEFAULT_BLOCKED_COMMANDS_def)
  have sub: "toLowerCase ''SUDO reboot'' = [] @ toLowerCase ''sudo'' @ '' reboot''"
    by code_simp
  have gone: "''sudo'' \<notin> set (blockedCommands (snd (unblockCommand ''sudo'' demo_manager)))"
    by code_simp
  have saved: "contents (config (snd (unblockCommand ''sudo'' demo_manager))) =
     BlockedArray [''format'', ''del /q'', ''rm -rf'', ''chmod 777'', ''mkfs'']"
    by code_simp
  show ?thesis
    using startup_blocked_set [of "\<lparr>contents = BlockedArray [''shutdown''], writable = False\<rparr>"
        "''sudo''" demo_manager "''SUDO reboot''" "[]" "'' reboot''"]
      default sub gone saved
    by blast
qed

section \<open>The session manager\<close>

subsection \<open>Runs and what they preserve\<close>

lemmas alist_simps = update_conv' delete_conv' map_of_map_entry

lemma run_Nil: "run [] s = s"
  by (simp add: run_def)

lemma run_Cons: "run (e # es) s = run es (handle e s)"
  by (simp add: run_def)

lemma resolve_Resolved:
  "resolve r p = Resolved r' \<longleftrightarrow> (p = Pending \<and> r' = r) \<or> p = Resolved r'"
  by (cases p) auto

lemma reject_Resolved: "reject e p = Resolved r \<longleftrightarrow> p = Resolved r"
  by (cases p) auto

lemma wf_new: "wf (new_TerminalManager m t)"
  by (simp add: wf_def new_TerminalManager_def)

lemma wf_executeCommand: "wf s \<Longrightarrow> wf (snd (executeCommand command timeout sp s))"
  by (auto simp: wf_def executeCommand_def Let_def alist_simps split: spawn_outcome.splits if_splits)

lemma wf_on_data: "wf s \<Longrightarrow> wf (on_data p data s)"
  by (auto simp: wf_def on_data_def alist_simps split: option.splits if_splits)

lemma wf_on_timeout: "wf s \<Longrightarrow> wf (on_timeout p s)"
  by (auto simp: wf_def on_timeout_def alist_simps resolve_Resolved split: option.splits if_splits)

lemma wf_on_error: "wf s \<Longrightarrow> wf (on_error p msg s)"
  by (auto simp: wf_def on_error_def alist_simps reject_Resolved split: option.splits if_splits)

lemma wf_on_exit: "wf s \<Longrightarrow> wf (on_exit p code s)"
  by (auto simp: wf_def on_exit_def alist_simps split: option.splits if_splits)

lemma wf_forceTerminate: "wf s \<Longrightarrow> wf (snd (forceTerminate p sig s))"
  by (auto simp: wf_def forceTerminate_def alist_simps
      split: option.splits signal_outcome.splits if_splits)

lemma wf_handle: "wf s \<Longrightarrow> wf (handle e s)"
  by (cases e)
     (simp_all add: wf_executeCommand wf_on_data wf_on_timeout wf_on_error wf_on_exit
        wf_forceTerminate, simp_all add: wf_def)

lemma wf_run: "wf s \<Longrightarrow> wf (run evs s)"
  by (induction evs arbitrary: s) (simp_all add: run_Nil run_Cons wf_handle)

lemma wf_reachable: "wf (run evs (new_TerminalManager m t))"
  by (simp add: wf_run wf_new)

lemma demo_reachable: "demo_system = run [] (new_TerminalManager demo_manager 0)"
  by (simp add: demo_system_def run_Nil)

lemma hello_reachable:
  "hello_system =
     run [Execute ''echo hello; sleep 5'' 100 (Spawned 7), StdoutData 1 ''hello'']
       (new_TerminalManager demo_manager 0)"
  by (simp add: hello_system_def demo_system_def)

lemma killed_reachable:
  "killed_system =
     run [Execute ''echo hello; sleep 5'' 100 (Spawned 7), StdoutData 1 ''hello'',
          ForceTerminate 1 SignalSent] (new_TerminalManager demo_manager 0)"
  by (simp add: killed_system_def hello_system_def demo_system_def run_def)

subsection \<open>Reading the output of a session\<close>

lemma readOutput_active_empty:
  assumes "s = run evs (new_TerminalManager m t)" and "map_of (sessions s) p = Some session"
  shows "readOutput p s = []"
proof -
  have "wf s" using assms(1) by (simp add: wf_reachable)
  with assms(2) have "lastOutput session = []" by (auto simp: wf_def)
  with assms(2) show ?thesis by (simp add: readOutput_def)
qed

lemma readOutput_archived:
  "map_of (sessions s) p = None \<Longrightarrow> map_of (completedSessions s) p = Some completed \<Longrightarrow>
   readOutput p s = c_output completed"
  by (simp add: readOutput_def)

lemma readOutput_unknown:
  "map_of (sessions s) p = None \<Longrightarrow> map_of (completedSessions s) p = None \<Longrightarrow>
   \<bar>p\<bar> < 10 ^ 21 \<Longrightarrow>
   readOutput p s = ''No session found with PID '' @ string_of_int p"
  by (simp add: readOutput_def)

text \<open>
  Claim C1 says that \<open>readOutput\<close> of an active session returns the output captured so
  far. The code returns the session's \<open>lastOutput\<close>, which is the empty string that
  \<open>output\<close> held when the session was built and is never written again
  (\<open>readOutput_active_empty\<close>: in every reachable state the answer for an active session
  is empty). Here the command has written \<open>hello\<close>, the closure variable holds it, the
  session is active, and \<open>readOutput(1)\<close> is empty. The other two cases of the claim hold
  (\<open>readOutput_archived\<close>, \<open>readOutput_unknown\<close>).
\<close>

theorem readOutput_active_stale:
  "map_of (sessions hello_system) 1 =
     Some \<lparr>pid = 1, process = 7, lastOutput = [], isBlocked = False, startTime = 0\<rparr> \<and>
   map_of (calls hello_system) 1 = Some \<lparr>output' = ''hello'', promise = Pending, due = 100\<rparr> \<and>
   readOutput 1 hello_system = []"
  by code_simp

subsection \<open>From active to completed\<close>

lemma on_exit_inactive: "map_of (sessions s) p = None \<Longrightarrow> on_exit p code s = s"
  by (simp add: on_exit_def split: option.splits)

text \<open>The \<open>exit\<close> handler archives everything captured so far.\<close>

lemma on_exit_archives_output:
  assumes "s = run evs (new_TerminalManager m t)" and "map_of (sessions s) p = Some session"
    and "map_of (calls s) p = Some c"
  shows "map_of (completedSessions (on_exit p code s)) p =
           Some \<lparr>c_pid = p, c_output = output' c, exitCode = code,
                 c_startTime = startTime session, endTime = now s\<rparr>"
proof -
  have "wf s" using assms(1) by (simp add: wf_reachable)
  with assms(2) have "lastOutput session = []" by (auto simp: wf_def)
  with assms(2,3) show ?thesis by (simp add: on_exit_def alist_simps)
qed

text \<open>
  Claim C2 says that no captured output is lost when a session is archived, by exit or by
  \<open>forceTerminate\<close>. On exit the code archives \<open>lastOutput + output\<close>, which is everything
  captured (\<open>on_exit_archives_output\<close>). \<open>forceTerminate\<close> archives \<open>lastOutput\<close> alone,
  which is still the empty string of the session's creation: here \<open>hello\<close> was captured
  before the call, and the archived output, and what \<open>readOutput(1)\<close> returns from then
  on, is empty.
\<close>

theorem forceTerminate_drops_output:
  "map_of (calls hello_system) 1 = Some \<lparr>output' = ''hello'', promise = Pending, due = 100\<rparr> \<and>
   fst (forceTerminate 1 SignalSent hello_system) = True \<and>
   map_of (completedSessions (snd (forceTerminate 1 SignalSent hello_system))) 1 =
     Some \<lparr>c_pid = 1, c_output = [], exitCode = None, c_startTime = 0, endTime = 0\<rparr> \<and>
   readOutput 1 (snd (forceTerminate 1 SignalSent hello_system)) = []"
  by code_simp

lemma archived_executeCommand:
  assumes "wf s" and "map_of (completedSessions s) p = Some r"
  shows "map_of (completedSessions (snd (executeCommand command timeout sp s))) p = Some r \<and>
         map_of (sessions (snd (executeCommand command timeout sp s))) p = None"
proof -
  from assms have "p < nextPid s" and "map_of (sessions s) p = None"
    by (auto simp: wf_def)
  with assms(2) show ?thesis
    by (simp add: executeCommand_def Let_def alist_simps split: spawn_outcome.splits)
qed

lemma archived_on_exit:
  assumes "wf s" and "map_of (completedSessions s) p = Some r"
  shows "map_of (completedSessions (on_exit q code s)) p = Some r \<and>
         map_of (sessions (on_exit q code s)) p = None"
proof -
  from assms have none: "map_of (sessions s) p = None"
    by (auto simp: wf_def)
  show ?thesis
  proof (cases "q = p")
    case True
    with none assms(2) show ?thesis by (simp add: on_exit_inactive)
  next
    case False
    with none assms(2) show ?thesis
      by (simp add: on_exit_def alist_simps split: option.splits)
  qed
qed

lemma archived_forceTerminate:
  assumes "wf s" and "map_of (completedSessions s) p = Some r"
  shows "map_of (completedSessions (snd (forceTerminate q sig s))) p = Some r \<and>
         map_of (sessions (snd (forceTerminate q sig s))) p = None"
proof -
  from assms have none: "map_of (sessions s) p = None"
    by (auto simp: wf_def)
  show ?thesis
  proof (cases "q = p")
    case True
    with none assms(2) show ?thesis by (simp add: forceTerminate_def)
  next
    case False
    with none assms(2) show ?thesis
      by (simp add: forceTerminate_def alist_simps split: option.splits signal_outcome.splits)
  qed
qed

lemma archived_handle:
  assumes "wf s" and "map_of (completedSessions s) p = Some r"
  shows "map_of (completedSessions (handle e s)) p = Some r \<and> map_of (sessions (handle e s)) p = None"
proof -
  from assms have none: "map_of (sessions s) p = None"
    by (auto simp: wf_def)
  show ?thesis
  proof (cases e)
    case (Execute command timeout sp)
    then show ?thesis using archived_executeCommand [OF assms] by simp
  next
    case (Exit q code)
    then show ?thesis using archived_on_exit [OF assms] by simp
  next
    case (ForceTerminate q sig)
    then show ?thesis using archived_forceTerminate [OF assms] by simp
  qed (use assms(2) none in \<open>simp_all add: on_data_def on_timeout_def on_error_def\<close>)
qed

text \<open>
  Claim C6. In every state that a run reaches from a new manager, no identifier is both
  active and completed; an \<open>exit\<close> notification for an identifier that is not active
  changes nothing; and a completed record is never overwritten, nor does its identifier
  become active again, whatever event comes next.
\<close>

theorem archived_exactly_once:
  assumes "s = run evs (new_TerminalManager m t)"
  shows "dom (map_of (sessions s)) \<inter> dom (map_of (completedSessions s)) = {} \<and>
         (map_of (sessions s) p = None \<longrightarrow> on_exit p code s = s) \<and>
         (\<forall>r. map_of (completedSessions s) p = Some r \<longrightarrow>
              map_of (completedSessions (handle e s)) p = Some r \<and>
              map_of (sessions (handle e s)) p = None)"
proof -
  have wf: "wf s" using assms by (simp add: wf_reachable)
  have disj: "map_of (sessions s) q = None \<or> map_of (completedSessions s) q = None" for q
    using wf by (simp add: wf_def)
  have "dom (map_of (sessions s)) \<inter> dom (map_of (completedSessions s)) = {}"
  proof (rule equals0I)
    fix q assume "q \<in> dom (map_of (sessions s)) \<inter> dom (map_of (completedSessions s))"
    then have "map_of (sessions s) q \<noteq> None" and "map_of (completedSessions s) q \<noteq> None"
      by auto
    with disj [of q] show False by simp
  qed
  with wf show ?thesis
    by (simp add: on_exit_inactive archived_handle)
qed

theorem archived_exactly_once_witness:
  "map_of (sessions killed_system) 1 = None \<and>
   on_exit 1 (Some 0) killed_system = killed_system \<and>
   map_of (completedSessions killed_system) 1 =
     Some \<lparr>c_pid = 1, c_output = [], exitCode = None, c_startTime = 0, endTime = 0\<rparr> \<and>
   map_of (completedSessions (handle (Exit 1 (Some 0)) killed_system)) 1 =
     Some \<lparr>c_pid = 1, c_output = [], exitCode = None, c_startTime = 0, endTime = 0\<rparr>"
proof -
  have inactive: "map_of (sessions killed_system) 1 = None" by code_simp
  have archived: "map_of (completedSessions killed_system) 1 =
     Some \<lparr>c_pid = 1, c_output = [], exitCode = None, c_startTime = 0, endTime = 0\<rparr>"
    by code_simp
  show ?thesis
    using archived_exactly_once [OF killed_reachable, of 1 "Some 0" "Exit 1 (Some 0)"]
      inactive archived
    by simp
qed

subsection \<open>Terminating a session\<close>

text \<open>
  Claim C4, as the code has it. \<open>forceTerminate\<close> returns \<open>false\<close> and changes nothing
  when the identifier is not active, whether it never existed or is completed. When it is
  active and the request to terminate the process does not throw, the signal is sent, the
  session leaves the active set and enters the completed set at once with no exit code,
  and the result is \<open>true\<close>. When the request throws, the result is \<open>false\<close> and the
  session stays active.
\<close>

theorem forceTerminate_outcomes:
  "(map_of (sessions s) p = None \<longrightarrow> forceTerminate p sig s = (False, s)) \<and>
   (\<forall>session. map_of (sessions s) p = Some session \<longrightarrow>
      forceTerminate p SignalThrows s = (False, s) \<and>
      fst (forceTerminate p SignalSent s) = True \<and>
      signalled (snd (forceTerminate p SignalSent s)) = signalled s @ [process session] \<and>
      map_of (sessions (snd (forceTerminate p SignalSent s))) p = None \<and>
      map_of (completedSessions (snd (forceTerminate p SignalSent s))) p =
        Some \<lparr>c_pid = p, c_output = lastOutput session, exitCode = None,
              c_startTime = startTime session, endTime = now s\<rparr>)"
  by (simp add: forceTerminate_def alist_simps)

theorem forceTerminate_outcomes_witness:
  "forceTerminate 5 SignalSent hello_system = (False, hello_system) \<and>
   forceTerminate 1 SignalSent killed_system = (False, killed_system) \<and>
   fst (forceTerminate 1 SignalSent hello_system) = True \<and>
   signalled (snd (forceTerminate 1 SignalSent hello_system)) = [7] \<and>
   map_of (sessions (snd (forceTerminate 1 SignalSent hello_system))) 1 = None \<and>
   map_of (completedSessions (snd (forceTerminate 1 SignalSent hello_system))) 1 =
     Some \<lparr>c_pid = 1, c_output = [], exitCode = None, c_startTime = 0, endTime = 0\<rparr>"
proof -
  have unknown: "map_of (sessions hello_system) 5 = None" by code_simp
  have archived: "map_of (sessions killed_system) 1 = None" by code_simp
  have active: "map_of (sessions hello_system) 1 =
     Some \<lparr>pid = 1, process = 7, lastOutput = [], isBlocked = False, startTime = 0\<rparr>"
    by code_simp
  have sig: "signalled hello_system = []" and now: "now hello_system = 0" by code_simp+
  show ?thesis
    using forceTerminate_outcomes [of hello_system 5 SignalSent]
      forceTerminate_outcomes [of killed_system 1 SignalSent]
      forceTerminate_outcomes [of hello_system 1 SignalSent]
      unknown archived active sig now
    by simp
qed

text \<open>
  Claim C4 as it is written fails for an active session when the request to terminate the
  process throws: the \<open>catch\<close> returns \<open>false\<close> and the session stays active.
\<close>

theorem forceTerminate_signal_throws_counterexample:
  "map_of (sessions hello_system) 1 =
     Some \<lparr>pid = 1, process = 7, lastOutput = [], isBlocked = False, startTime = 0\<rparr> \<and>
   forceTerminate 1 SignalThrows hello_system = (False, hello_system)"
  by code_simp

subsection \<open>Identifiers\<close>

lemma nextPid_executeCommand:
  "nextPid (snd (executeCommand command timeout sp s)) =
     (if isCommandBlocked (commandManager s) command then nextPid s else nextPid s + 1)"
  by (simp add: executeCommand_def Let_def split: spawn_outcome.splits)

lemma nextPid_forceTerminate: "nextPid (snd (forceTerminate p sig s)) = nextPid s"
  by (simp add: forceTerminate_def split: option.splits signal_outcome.splits)

lemma nextPid_on_exit: "nextPid (on_exit p code s) = nextPid s"
  by (simp add: on_exit_def split: option.splits)

lemma nextPid_on_data: "nextPid (on_data p data s) = nextPid s"
  by (simp add: on_data_def)

lemma nextPid_on_timeout: "nextPid (on_timeout p s) = nextPid s"
  by (simp add: on_timeout_def)

lemma nextPid_on_error: "nextPid (on_error p msg s) = nextPid s"
  by (simp add: on_error_def)

lemmas nextPid_simps = nextPid_executeCommand nextPid_forceTerminate nextPid_on_exit
  nextPid_on_data nextPid_on_timeout nextPid_on_error

lemma nextPid_handle: "nextPid s \<le> nextPid (handle e s)"
  by (cases e) (simp_all add: nextPid_simps)











subsection \<open>The gate in front of \<open>executeCommand\<close>\<close>

lemma a_pid_listSessions: "a_pid ` set (listSessions s) = dom (map_of (sessions s))"
  by (force simp: listSessions_def dom_map_of_conv_image_fst image_image split_def)

text \<open>
  Claim C3, as the code has it. In every reachable state, \<open>executeCommand\<close> returns the
  blocked result with identifier -1 and leaves the whole state, and so \<open>listSessions()\<close>,
  unchanged if and only if the lower-cased command contains a lower-cased pattern of the
  blocked set as a substring. Otherwise the counter is advanced; if \<open>spawn\<close> returns a
  process, a new active session for it is registered under the identifier taken, which
  was not listed before and is listed afterwards, and the promise is pending; if \<open>spawn\<close>
  throws, the promise is rejected with that error and no session is registered.
\<close>

theorem executeCommand_gate:
  assumes "s = run evs (new_TerminalManager m t)"
  shows
  "(executeCommand c timeout sp s =
      (Resolved (Result (- 1) (''Command blocked for security reasons: '' @ c) True), s)
    \<longleftrightarrow> (\<exists>b\<in>set (blockedCommands (commandManager s)).
           \<exists>ps ss. toLowerCase c = ps @ toLowerCase b @ ss)) \<and>
   (\<not> (\<exists>b\<in>set (blockedCommands (commandManager s)).
           \<exists>ps ss. toLowerCase c = ps @ toLowerCase b @ ss) \<longrightarrow>
      executeCommand c timeout (SpawnThrows err) s = (Rejected err, s\<lparr>nextPid := nextPid s + 1\<rparr>) \<and>
      fst (executeCommand c timeout (Spawned h) s) = Pending \<and>
      map_of (sessions (snd (executeCommand c timeout (Spawned h) s))) (nextPid s) =
        Some \<lparr>pid = nextPid s, process = h, lastOutput = [], isBlocked = False,
              startTime = now s\<rparr> \<and>
      nextPid s \<notin> a_pid ` set (listSessions s) \<and>
      a_pid ` set (listSessions (snd (executeCommand c timeout (Spawned h) s))) =
        insert (nextPid s) (a_pid ` set (listSessions s)))"
proof -
  have wf: "wf s" using assms by (simp add: wf_reachable)
  then have fresh: "nextPid s \<notin> dom (map_of (sessions s))"
    by (auto simp: wf_def)
  show ?thesis
  proof (cases "isCommandBlocked (commandManager s) c")
    case True
    then show ?thesis
      using isCommandBlocked_iff [of "commandManager s" c] by (simp add: executeCommand_def)
  next
    case False
    then show ?thesis
      using isCommandBlocked_iff [of "commandManager s" c] fresh
      by (cases sp) (simp_all add: executeCommand_def Let_def alist_simps a_pid_listSessions)
  qed
qed

theorem executeCommand_gate_witness:
  "executeCommand ''SUDO ls'' 100 (Spawned 7) demo_system =
     (Resolved (Result (- 1) ''Command blocked for security reasons: SUDO ls'' True), demo_system) \<and>
   fst (executeCommand ''ls'' 100 (Spawned 7) demo_system) = Pending \<and>
   map_of (sessions (snd (executeCommand ''ls'' 100 (Spawned 7) demo_system))) 1 =
     Some \<lparr>pid = 1, process = 7, lastOutput = [], isBlocked = False, startTime = 0\<rparr> \<and>
   a_pid ` set (listSessions (snd (executeCommand ''ls'' 100 (Spawned 7) demo_system))) = {1}"
proof -
  have "isCommandBlocked (commandManager demo_system) ''SUDO ls''" by code_simp
  then have blocked: "\<exists>b\<in>set (blockedCommands (commandManager demo_system)).
      \<exists>ps ss. toLowerCase ''SUDO ls'' = ps @ toLowerCase b @ ss"
    by (simp add: isCommandBlocked_iff)
  have "\<not> isCommandBlocked (commandManager demo_system) ''ls''" by code_simp
  then have free: "\<not> (\<exists>b\<in>set (blockedCommands (commandManager demo_system)).
      \<exists>ps ss. toLowerCase ''ls'' = ps @ toLowerCase b @ ss)"
    by (simp add: isCommandBlocked_iff)
  have first: "nextPid demo_system = 1" and t: "now demo_system = 0"
    and none: "listSessions demo_system = []"
    by code_simp+
  from blocked executeCommand_gate [OF demo_reachable, of "''SUDO ls''" 100 "Spawned 7"]
  have 1: "executeCommand ''SUDO ls'' 100 (Spawned 7) demo_system =
     (Resolved (Result (- 1) ''Command blocked for security reasons: SUDO ls'' True), demo_system)"
    by simp
  from free executeCommand_gate [OF demo_reachable, of "''ls''" 100 "Spawned 7" "[]" 7]
  have 2: "fst (executeCommand ''ls'' 100 (Spawned 7) demo_system) = Pending \<and>
     map_of (sessions (snd (executeCommand ''ls'' 100 (Spawned 7) demo_system))) 1 =
       Some \<lparr>pid = 1, process = 7, lastOutput = [], isBlocked = False, startTime = 0\<rparr> \<and>
     a_pid ` set (listSessions (snd (executeCommand ''ls'' 100 (Spawned 7) demo_system))) = {1}"
    using first t none by simp
  from 1 2 show ?thesis by simp
qed

text \<open>
  Claim C3 as it is written fails in its last part, that a command which is not blocked
  gets a process and a new active session: when \<open>spawn\<close> throws, the \<open>catch\<close> rejects the
  promise, and no session is registered.
\<close>

theorem executeCommand_spawn_throws_counterexample:
  "\<not> isCommandBlocked (commandManager demo_system) ''ls'' \<and>
   fst (executeCommand ''ls'' 100 (SpawnThrows ''spawn ENOMEM'') demo_system) =
     Rejected ''spawn ENOMEM'' \<and>
   sessions (snd (executeCommand ''ls'' 100 (SpawnThrows ''spawn ENOMEM'') demo_system)) = [] \<and>
   listSessions (snd (executeCommand ''ls'' 100 (SpawnThrows ''spawn ENOMEM'') demo_system)) = []"
  by code_simp

subsection \<open>When the promise of \<open>executeCommand\<close> resolves\<close>

lemma now_handle: "now s \<le> now (handle e s)"
  by (cases e)
     (simp_all add: executeCommand_def Let_def on_data_def on_timeout_def on_error_def on_exit_def
        forceTerminate_def split: spawn_outcome.splits option.splits signal_outcome.splits)

lemma now_run: "now s \<le> now (run evs s)"
proof (induction evs arbitrary: s)
  case Nil
  show ?case by (simp add: run_Nil)
next
  case (Cons e es)
  have "now s \<le> now (handle e s)" by (rule now_handle)
  also have "\<dots> \<le> now (run es (handle e s))" by (rule Cons)
  finally show ?case by (simp add: run_Cons)
qed

lemma calls_executeCommand:
  "p < nextPid s \<Longrightarrow>
   map_of (calls (snd (executeCommand command timeout sp s))) p = map_of (calls s) p"
  by (simp add: executeCommand_def Let_def alist_simps split: spawn_outcome.splits)

lemma calls_on_exit: "calls (on_exit p code s) = calls s"
  by (simp add: on_exit_def split: option.splits)

lemma calls_forceTerminate: "calls (snd (forceTerminate p sig s)) = calls s"
  by (simp add: forceTerminate_def split: option.splits signal_outcome.splits)

text \<open>
  One event leaves the promise of call \<open>p\<close> as it is, unless it is the timer of \<open>p\<close>, which
  may resolve it, or it rejects it.
\<close>

lemma promise_handle:
  assumes "map_of (calls s) p = Some c" and "p < nextPid s"
  shows "\<exists>c'. map_of (calls (handle e s)) p = Some c' \<and> due c' = due c \<and>
           (promise c' = promise c \<or>
            (e = Timeout p \<and> promise c' = Resolved (Result p (output' c) False)) \<or>
            (\<exists>msg. promise c' = Rejected msg))"
proof (cases e)
  case (Execute command timeout sp)
  with assms show ?thesis by (simp add: calls_executeCommand)
next
  case (Timeout q)
  with assms show ?thesis
    by (cases "promise c") (auto simp: on_timeout_def alist_simps)
next
  case (Error q msg)
  with assms show ?thesis
    by (cases "promise c") (auto simp: on_error_def alist_simps)
qed (use assms in \<open>auto simp: on_data_def alist_simps calls_on_exit calls_forceTerminate\<close>)

lemma resolved_handle:
  assumes "map_of (calls s) p = Some c" and "p < nextPid s" and "promise c = Resolved r"
  shows "\<exists>c'. map_of (calls (handle e s)) p = Some c' \<and> promise c' = Resolved r"
proof (cases e)
  case (Execute command timeout sp)
  with assms show ?thesis by (simp add: calls_executeCommand)
qed (use assms in \<open>auto simp: on_data_def on_timeout_def on_error_def alist_simps
      calls_on_exit calls_forceTerminate\<close>)

lemma resolved_run:
  assumes "map_of (calls s) p = Some c" and "p < nextPid s" and "promise c = Resolved r"
  shows "\<exists>c'. map_of (calls (run evs s)) p = Some c' \<and> promise c' = Resolved r"
  using assms
proof (induction evs arbitrary: s c)
  case Nil
  then show ?case by (simp add: run_Nil)
next
  case (Cons e es)
  from resolved_handle [OF Cons.prems, of e]
  obtain c1 where c1: "map_of (calls (handle e s)) p = Some c1" "promise c1 = Resolved r"
    by blast
  have "p < nextPid (handle e s)"
    using Cons.prems(2) nextPid_handle [of s e] by simp
  from Cons.IH [OF c1(1) this c1(2)] show ?case by (simp add: run_Cons)
qed

lemma resolved_needs_timer:
  assumes "map_of (calls s) p = Some c" and "p < nextPid s" and "\<forall>r. promise c \<noteq> Resolved r"
    and "schedule s evs"
    and "map_of (calls (run evs s)) p = Some c'" and "promise c' = Resolved r"
  shows "due c \<le> now (run evs s) \<and> Timeout p \<in> set evs \<and> r_pid r = p \<and> \<not> r_isBlocked r"
  using assms
proof (induction evs arbitrary: s c)
  case Nil
  then show ?case by (simp add: run_Nil)
next
  case (Cons e es)
  from promise_handle [OF Cons.prems(1,2), of e]
  obtain d where d: "map_of (calls (handle e s)) p = Some d" "due d = due c"
    and alt: "promise d = promise c \<or>
            (e = Timeout p \<and> promise d = Resolved (Result p (output' c) False)) \<or>
            (\<exists>msg. promise d = Rejected msg)"
    by blast
  have lt: "p < nextPid (handle e s)"
    using Cons.prems(2) nextPid_handle [of s e] by simp
  have sched: "deliverable s e" "schedule (handle e s) es"
    using Cons.prems(4) by simp_all
  have fin: "map_of (calls (run es (handle e s))) p = Some c'"
    using Cons.prems(5) by (simp add: run_Cons)
  show ?case
  proof (cases "\<exists>r'. promise d = Resolved r'")
    case False
    then have "\<forall>r. promise d \<noteq> Resolved r" by simp
    from Cons.IH [OF d(1) lt this sched(2) fin Cons.prems(6)]
    show ?thesis using d(2) by (simp add: run_Cons)
  next
    case True
    with alt Cons.prems(3)
    have e: "e = Timeout p" and pd: "promise d = Resolved (Result p (output' c) False)"
      by auto
    from resolved_run [OF d(1) lt pd, of es] fin
    have "promise c' = Resolved (Result p (output' c) False)" by auto
    with Cons.prems(6) have r: "r = Result p (output' c) False" by simp
    have "due c \<le> now s"
      using sched(1) e Cons.prems(1) by simp
    also have "now s \<le> now (run (e # es) s)" by (rule now_run)
    finally show ?thesis using e r by simp
  qed
qed

text \<open>
  Claim C10, as the code has it. A call of \<open>executeCommand\<close> with a command that is not
  blocked and a \<open>spawn\<close> that returns leaves its promise pending, with one timer set to the
  \<open>timeout\<close> it was given. Whatever events follow, in any order the runtime may deliver
  them, if the promise of the call is resolved afterwards then the timer callback of the
  call has run: it is the only path that resolves, and the \<open>exit\<close> of the child process,
  however early, does not. The result carries the identifier of the call with \<open>isBlocked\<close>
  false. So the result comes no earlier than the delay of that timer: for a \<open>timeout\<close>
  from 1 to \<open>2^31 - 1\<close> milliseconds no earlier than \<open>timeout\<close> milliseconds after the
  call, for any other \<open>timeout\<close> no earlier than 1 millisecond after it.
\<close>

theorem execute_resolves_at_deadline:
  assumes "\<not> isCommandBlocked (commandManager s) command"
    and "schedule (snd (executeCommand command timeout (Spawned h) s)) evs"
    and "map_of (calls (run evs (snd (executeCommand command timeout (Spawned h) s)))) (nextPid s)
           = Some c"
    and "promise c = Resolved r"
  shows "fst (executeCommand command timeout (Spawned h) s) = Pending \<and>
         Timeout (nextPid s) \<in> set evs \<and> r_pid r = nextPid s \<and> \<not> r_isBlocked r \<and>
         (1 \<le> timeout \<and> timeout \<le> 2147483647 \<longrightarrow>
            int (now s) + timeout
              \<le> int (now (run evs (snd (executeCommand command timeout (Spawned h) s))))) \<and>
         (timeout < 1 \<or> 2147483647 < timeout \<longrightarrow>
            now s + 1 \<le> now (run evs (snd (executeCommand command timeout (Spawned h) s))))"
proof -
  let ?s1 = "snd (executeCommand command timeout (Spawned h) s)"
  let ?c = "\<lparr>output' = [], promise = Pending, due = now s + setTimeout_delay timeout\<rparr>"
  have c1: "map_of (calls ?s1) (nextPid s) = Some ?c"
    using assms(1) by (simp add: executeCommand_def Let_def alist_simps)
  have lt: "nextPid s < nextPid ?s1"
    using assms(1) by (simp add: nextPid_executeCommand)
  have "\<forall>r. promise ?c \<noteq> Resolved r" by simp
  from resolved_needs_timer [OF c1 lt this assms(2,3,4)]
  have timer: "Timeout (nextPid s) \<in> set evs" "r_pid r = nextPid s" "\<not> r_isBlocked r"
    and late: "now s + setTimeout_delay timeout \<le> now (run evs ?s1)"
    by simp_all
  have pending: "fst (executeCommand command timeout (Spawned h) s) = Pending"
    using assms(1) by (simp add: executeCommand_def Let_def)
  have inside: "int (now s) + timeout \<le> int (now (run evs ?s1))"
    if "1 \<le> timeout \<and> timeout \<le> 2147483647"
    using that late by (simp add: setTimeout_delay_def TIMEOUT_MAX_def)
  have outside: "now s + 1 \<le> now (run evs ?s1)"
    if "timeout < 1 \<or> 2147483647 < timeout"
    using that late by (auto simp: setTimeout_delay_def TIMEOUT_MAX_def)
  from pending timer inside outside show ?thesis by blast
qed

theorem execute_resolves_at_deadline_witness:
  "\<not> isCommandBlocked (commandManager demo_system) ''echo hi'' \<and>
   schedule (snd (executeCommand ''echo hi'' 100 (Spawned 7) demo_system))
     [StdoutData 1 ''hi'', Exit 1 (Some 0), Tick 100, Timeout 1] \<and>
   map_of (calls (run [StdoutData 1 ''hi'', Exit 1 (Some 0), Tick 100, Timeout 1]
       (snd (executeCommand ''echo hi'' 100 (Spawned 7) demo_system)))) 1 =
     Some \<lparr>output' = ''hi'', promise = Resolved (Result 1 ''hi'' False), due = 100\<rparr> \<and>
   fst (executeCommand ''echo hi'' 100 (Spawned 7) demo_system) = Pending \<and>
   (1::int) \<le> 100 \<and> (100::int) \<le> 2147483647 \<and>
   int 0 + 100 \<le> int (now (run [StdoutData 1 ''hi'', Exit 1 (Some 0), Tick 100, Timeout 1]
       (snd (executeCommand ''echo hi'' 100 (Spawned 7) demo_system)))) \<and>
   Timeout 1 \<in> set [StdoutData 1 ''hi'', Exit 1 (Some 0), Tick 100, Timeout 1] \<and>
   schedule (snd (executeCommand ''echo hi'' 0 (Spawned 7) demo_system)) [Tick 1, Timeout 1] \<and>
   0 + 1 \<le> now (run [Tick 1, Timeout 1]
       (snd (executeCommand ''echo hi'' 0 (Spawned 7) demo_system)))"
proof -
  let ?evs = "[StdoutData 1 ''hi'', Exit 1 (Some 0), Tick 100, Timeout 1]"
  let ?s1 = "snd (executeCommand ''echo hi'' 100 (Spawned 7) demo_system)"
  let ?s0 = "snd (executeCommand ''echo hi'' 0 (Spawned 7) demo_system)"
  have free: "\<not> isCommandBlocked (commandManager demo_system) ''echo hi''" by code_simp
  have first: "nextPid demo_system = 1" and t: "now demo_system = 0" by code_simp+
  have sched: "schedule ?s1 ?evs" by code_simp
  have call: "map_of (calls (run ?evs ?s1)) (nextPid demo_system) =
      Some \<lparr>output' = ''hi'', promise = Resolved (Result 1 ''hi'' False), due = 100\<rparr>"
    unfolding first by code_simp
  have res: "promise \<lparr>output' = ''hi'', promise = Resolved (Result 1 ''hi'' False), due = 100\<rparr> =
      Resolved (Result 1 ''hi'' False)"
    by simp
  have sched0: "schedule ?s0 [Tick 1, Timeout 1]" by code_simp
  have call0: "map_of (calls (run [Tick 1, Timeout 1] ?s0)) (nextPid demo_system) =
      Some \<lparr>output' = [], promise = Resolved (Result 1 [] False), due = 1\<rparr>"
    unfolding first by code_simp
  have res0: "promise \<lparr>output' = [], promise = Resolved (Result 1 [] False), due = 1\<rparr> =
      Resolved (Result 1 [] False)"
    by simp
  from execute_resolves_at_deadline [OF free sched call res]
    execute_resolves_at_deadline [OF free sched0 call0 res0]
    free sched call sched0
  show ?thesis by (simp add: first t)
qed

text \<open>
  Claim C10 as it is written, that the result never comes before the requested timeout,
  fails for a timeout above \<open>2^31 - 1\<close> milliseconds: the runtime sets the delay of the
  timer to 1 millisecond, and \<open>executeCommand\<close> does not look at the value. Here the
  timeout asked for is 2147483648 milliseconds, the timer is due after 1, and the promise
  is resolved at time 4.
\<close>

theorem execute_large_timeout_counterexample:
  "\<not> isCommandBlocked (commandManager demo_system) ''echo hi'' \<and>
   now demo_system = 0 \<and>
   schedule (snd (executeCommand ''echo hi'' 2147483648 (Spawned 7) demo_system))
     [Tick 4, Timeout 1] \<and>
   map_of (calls (run [Tick 4, Timeout 1]
       (snd (executeCommand ''echo hi'' 2147483648 (Spawned 7) demo_system)))) 1 =
     Some \<lparr>output' = [], promise = Resolved (Result 1 [] False), due = 1\<rparr> \<and>
   now (run [Tick 4, Timeout 1]
       (snd (executeCommand ''echo hi'' 2147483648 (Spawned 7) demo_system))) = 4 \<and>
   \<not> (int (now demo_system) + 2147483648
        \<le> int (now (run [Tick 4, Timeout 1]
             (snd (executeCommand ''echo hi'' 2147483648 (Spawned 7) demo_system)))))"
  by code_simp

text \<open>The runtime cannot deliver the timer of a call before it is due.\<close>

lemma early_timer_not_scheduled:
  "\<not> schedule (snd (executeCommand ''echo hi'' 100 (Spawned 7) demo_system))
       [Exit 1 (Some 0), Tick 99, Timeout 1]"
  by code_simp

end
